theory Spec2Isabelle
  imports Main "HOL-Library.AList"
begin

section \<open>Workflow data\<close>

text \<open>
  Workflows and steps are the dictionaries that \<^verbatim>\<open>json.load\<close> yields. A dictionary is an
  association list with string keys, looked up with \<^const>\<open>map_of\<close>. Floating-point numbers
  are left out of the value type.
\<close>

datatype json = JNull | JBool bool | JInt int | JStr string
  | JList "json list" | JDict "(string \<times> json) list"

type_synonym pydict = "(string \<times> json) list"

text \<open>Python truthiness (\<^verbatim>\<open>not v\<close> is its negation).\<close>

fun truthy :: "json \<Rightarrow> bool" where
  "truthy JNull = False"
| "truthy (JBool b) = b"
| "truthy (JInt n) = (n \<noteq> 0)"
| "truthy (JStr s) = (s \<noteq> [])"
| "truthy (JList xs) = (xs \<noteq> [])"
| "truthy (JDict kvs) = (kvs \<noteq> [])"

text \<open>\<^verbatim>\<open>d.get(k)\<close> and \<^verbatim>\<open>d.get(k, default)\<close>.\<close>

definition dget :: "pydict \<Rightarrow> string \<Rightarrow> json" where
  "dget d k = (case map_of d k of None \<Rightarrow> JNull | Some v \<Rightarrow> v)"

definition dget_default :: "pydict \<Rightarrow> string \<Rightarrow> json \<Rightarrow> json" where
  "dget_default d k dflt = (case map_of d k of None \<Rightarrow> dflt | Some v \<Rightarrow> v)"

text \<open>\<^verbatim>\<open>k in d\<close>.\<close>

definition has_key :: "pydict \<Rightarrow> string \<Rightarrow> bool" where
  "has_key d k = (map_of d k \<noteq> None)"

text \<open>Decimal rendering of a natural number, as an f-string does it.\<close>

fun str_of_nat :: "nat \<Rightarrow> string" where
  "str_of_nat n =
     (if n < 10 then [''0123456789'' ! n]
      else str_of_nat (n div 10) @ [''0123456789'' ! (n mod 10)])"

declare str_of_nat.simps [simp del]

section \<open>Clock values\<close>

text \<open>
  A naive \<^verbatim>\<open>datetime\<close>: the date as its proleptic day number (\<^verbatim>\<open>toordinal()\<close>) and the
  time-of-day fields. Day numbers are unbounded here. The text that \<^verbatim>\<open>isoformat()\<close> gives
  for a datetime is kept as \<open>Iso\<close> of that datetime.
\<close>

record datetime =
  ordinal :: int
  hour :: nat
  minute :: nat
  second :: nat
  microsecond :: nat

datatype iso = Iso datetime

section \<open>The automation engine as seen by the executor\<close>

text \<open>
  Every method of \<^verbatim>\<open>BrowserAutomationEngine\<close> either returns or lets what the browser
  library raised pass on (an \<^verbatim>\<open>Exception\<close> is logged and re-raised). The browser is outside
  the program, so its answers are given by \<open>respond\<close>: the answer to a call after the events
  so far, \<open>Inl\<close> the exception raised. The event list records, in order, the engine calls
  made and the \<^verbatim>\<open>Executing step i: action\<close> log lines.
\<close>

datatype call =
    StartBrowser
  | NavigateTo json
  | ClickElement json json
  | TypeText json json json
  | WaitForElement json json json
  | GetText json json
  | TakeScreenshot json
  | CloseBrowser

datatype event = Executing nat json | Call call

datatype exn =
    ValueError string
  | UnknownAction json
  | AttributeError
  | TypeError
  | EngineError string
  | ScheduleValueError
  | KeyError string
  | OSError string
  | OverflowError
  | Interrupted string

text \<open>
  \<open>Interrupted\<close> stands for the exceptions that derive from \<^verbatim>\<open>BaseException\<close> and not from
  \<^verbatim>\<open>Exception\<close>: \<^verbatim>\<open>asyncio.CancelledError\<close> when the task is cancelled at an \<^verbatim>\<open>await\<close>, and
  \<^verbatim>\<open>KeyboardInterrupt\<close>. A handler \<^verbatim>\<open>except Exception\<close> catches exactly the exceptions with
  \<open>is_exception\<close>. Interrupts are modelled where the program awaits the engine.
\<close>

fun is_exception :: "exn \<Rightarrow> bool" where
  "is_exception (Interrupted m) = False"
| "is_exception x = True"

record env =
  respond :: "event list \<Rightarrow> call \<Rightarrow> exn + json"
  now :: "event list \<Rightarrow> datetime"
  strftime :: "datetime \<Rightarrow> string"

definition invoke :: "env \<Rightarrow> event list \<Rightarrow> call \<Rightarrow> (exn + json) \<times> event list" where
  "invoke e h c = (respond e h c, h @ [Call c])"

section \<open>Run results\<close>

text \<open>
  An entry of \<open>errors\<close> is \<^verbatim>\<open>Step i failed: str(e)\<close> or
  \<^verbatim>\<open>Workflow execution failed: str(e)\<close>; the entry keeps the index and the exception.
\<close>

datatype error_entry = StepFailed nat exn | WorkflowFailed exn

record run_result =
  workflow_name :: json
  start_time :: iso
  steps_executed :: nat
  total_steps :: nat
  success :: bool
  errors :: "error_entry list"
  screenshots :: "json list"
  extracted_data :: "(json \<times> json) list"
  end_time :: "iso option"

text \<open>
  Storing under a key of \<open>extracted_data\<close>: lists and dictionaries are unhashable, and
  \<^verbatim>\<open>True\<close>/\<^verbatim>\<open>False\<close> are the same keys as \<^verbatim>\<open>1\<close>/\<^verbatim>\<open>0\<close>.
\<close>

fun hashable :: "json \<Rightarrow> bool" where
  "hashable (JList xs) = False"
| "hashable (JDict kvs) = False"
| "hashable v = True"

fun key_norm :: "json \<Rightarrow> json" where
  "key_norm (JBool b) = JInt (if b then 1 else 0)"
| "key_norm v = v"

fun dict_set :: "(json \<times> json) list \<Rightarrow> json \<Rightarrow> json \<Rightarrow> (json \<times> json) list" where
  "dict_set [] k v = [(k, v)]"
| "dict_set ((k', v') # d) k v =
     (if key_norm k' = key_norm k then (k', v) # d else (k', v') # dict_set d k v)"

section \<open>The step executor\<close>

text \<open>
  \<^verbatim>\<open>WorkflowExecutor._execute_step\<close>. The result is the raised exception or the updated
  results, together with the extended event list. The results are only written after the
  engine call of the step has returned.
\<close>

definition execute_step ::
  "env \<Rightarrow> pydict \<Rightarrow> run_result \<Rightarrow> event list \<Rightarrow> (exn + run_result) \<times> event list" where
  "execute_step e step results h =
     (let action = dget step ''action'' in
      if action = JStr ''navigate'' then
        (let url = dget step ''url'' in
         if \<not> truthy url then
           (Inl (ValueError ''Navigate action requires 'url' parameter''), h)
         else
           (case invoke e h (NavigateTo url) of
              (Inl x, h') \<Rightarrow> (Inl x, h')
            | (Inr _, h') \<Rightarrow> (Inr results, h')))
      else if action = JStr ''click'' then
        (let selector = dget step ''selector'';
             selector_type = dget_default step ''selector_type'' (JStr ''css'') in
         if \<not> truthy selector then
           (Inl (ValueError ''Click action requires 'selector' parameter''), h)
         else
           (case invoke e h (ClickElement selector selector_type) of
              (Inl x, h') \<Rightarrow> (Inl x, h')
            | (Inr _, h') \<Rightarrow> (Inr results, h')))
      else if action = JStr ''type'' then
        (let selector = dget step ''selector'';
             text = dget step ''text'';
             selector_type = dget_default step ''selector_type'' (JStr ''css'') in
         if \<not> truthy selector \<or> \<not> truthy text then
           (Inl (ValueError ''Type action requires 'selector' and 'text' parameters''), h)
         else
           (case invoke e h (TypeText selector text selector_type) of
              (Inl x, h') \<Rightarrow> (Inl x, h')
            | (Inr _, h') \<Rightarrow> (Inr results, h')))
      else if action = JStr ''wait'' then
        (let selector = dget step ''selector'';
             timeout = dget_default step ''timeout'' (JInt 10);
             selector_type = dget_default step ''selector_type'' (JStr ''css'') in
         if \<not> truthy selector then
           (Inl (ValueError ''Wait action requires 'selector' parameter''), h)
         else
           (case invoke e h (WaitForElement selector timeout selector_type) of
              (Inl x, h') \<Rightarrow> (Inl x, h')
            | (Inr _, h') \<Rightarrow> (Inr results, h')))
      else if action = JStr ''get_text'' then
        (let selector = dget step ''selector'';
             selector_type = dget_default step ''selector_type'' (JStr ''css'');
             key = dget_default step ''key''
                     (JStr (''text_'' @ str_of_nat (length (extracted_data results)))) in
         if \<not> truthy selector then
           (Inl (ValueError ''Get_text action requires 'selector' parameter''), h)
         else
           (case invoke e h (GetText selector selector_type) of
              (Inl x, h') \<Rightarrow> (Inl x, h')
            | (Inr text, h') \<Rightarrow>
                if hashable key then
                  (Inr (results\<lparr>extracted_data := dict_set (extracted_data results) key text\<rparr>), h')
                else (Inl TypeError, h')))
      else if action = JStr ''screenshot'' then
        (let path = dget_default step ''path''
                      (JStr (''screenshot_'' @ strftime e (now e h) @ ''.png'')) in
         case invoke e h (TakeScreenshot path) of
           (Inl x, h') \<Rightarrow> (Inl x, h')
         | (Inr _, h') \<Rightarrow> (Inr (results\<lparr>screenshots := screenshots results @ [path]\<rparr>), h'))
      else (Inl (UnknownAction action), h))"

section \<open>The run controller\<close>

text \<open>
  The body of the \<^verbatim>\<open>for\<close> loop of \<^verbatim>\<open>execute_workflow\<close> for step number \<open>i\<close>: the log
  line reads \<^verbatim>\<open>step.get('action', 'unknown')\<close>, which raises \<^verbatim>\<open>AttributeError\<close> for a step
  that is no dictionary; then the step is executed.
\<close>

fun attempt :: "env \<Rightarrow> nat \<Rightarrow> json \<Rightarrow> run_result \<Rightarrow> event list \<Rightarrow> (exn + run_result) \<times> event list" where
  "attempt e i (JDict step) results h =
     execute_step e step results (h @ [Executing i (dget_default step ''action'' (JStr ''unknown''))])"
| "attempt e i v results h = (Inl AttributeError, h)"

text \<open>
  The loop. A step that raises an \<^verbatim>\<open>Exception\<close> is recorded and ends the loop
  (\<^verbatim>\<open>break\<close>). Any other exception passes the handler and leaves the loop with the results
  as they are.
\<close>

fun run_steps :: "env \<Rightarrow> nat \<Rightarrow> json list \<Rightarrow> run_result \<Rightarrow> event list \<Rightarrow> run_result \<times> event list" where
  "run_steps e i [] results h = (results, h)"
| "run_steps e i (step # rest) results h =
     (case attempt e i step results h of
        (Inr results', h') \<Rightarrow>
          run_steps e (Suc i) rest (results'\<lparr>steps_executed := steps_executed results' + 1\<rparr>) h'
      | (Inl x, h') \<Rightarrow>
          if is_exception x
          then (results\<lparr>errors := errors results @ [StepFailed i x], success := False\<rparr>, h')
          else (results, h'))"

text \<open>
  What \<^verbatim>\<open>workflow.get("steps", [])\<close> yields to \<^verbatim>\<open>len\<close> and to the loop: the items of a list,
  the characters of a string, the keys of a dictionary; \<^verbatim>\<open>len\<close> raises \<^verbatim>\<open>TypeError\<close>
  for the other values.
\<close>

definition steps_of :: "pydict \<Rightarrow> exn + json list" where
  "steps_of workflow =
     (case dget_default workflow ''steps'' (JList []) of
        JList xs \<Rightarrow> Inr xs
      | JStr s \<Rightarrow> Inr (map (\<lambda>c. JStr [c]) s)
      | JDict kvs \<Rightarrow> Inr (map (\<lambda>kv. JStr (fst kv)) kvs)
      | _ \<Rightarrow> Inl TypeError)"

text \<open>
  \<^verbatim>\<open>WorkflowExecutor.execute_workflow\<close>. An \<^verbatim>\<open>Exception\<close> of \<^verbatim>\<open>start_browser\<close> is caught by
  the outer handler. An exception that is no \<^verbatim>\<open>Exception\<close>, from \<^verbatim>\<open>start_browser\<close> or from
  a step, passes both handlers and is pending when the \<^verbatim>\<open>finally\<close> block runs. That block
  closes the browser (the engine object exists by then, so \<^verbatim>\<open>if self.engine\<close> holds)
  before it sets \<open>end_time\<close> and returns: an exception of \<^verbatim>\<open>close_browser\<close> leaves the
  function, and otherwise the \<^verbatim>\<open>return\<close> discards a pending exception.
\<close>

definition init_results :: "env \<Rightarrow> pydict \<Rightarrow> nat \<Rightarrow> run_result" where
  "init_results e workflow n =
     \<lparr>workflow_name = dget_default workflow ''name'' (JStr ''Unknown''),
      start_time = Iso (now e []),
      steps_executed = 0,
      total_steps = n,
      success = True,
      errors = [],
      screenshots = [],
      extracted_data = [],
      end_time = None\<rparr>"

definition execute_workflow :: "env \<Rightarrow> pydict \<Rightarrow> (exn + run_result) \<times> event list" where
  "execute_workflow e workflow =
     (case steps_of workflow of
        Inl x \<Rightarrow> (Inl x, [])
      | Inr steps \<Rightarrow>
          (let results = init_results e workflow (length steps);
               (results1, h1) =
                 (case invoke e [] StartBrowser of
                    (Inl x, h) \<Rightarrow>
                      if is_exception x
                      then (results\<lparr>errors := errors results @ [WorkflowFailed x],
                                    success := False\<rparr>, h)
                      else (results, h)
                  | (Inr _, h) \<Rightarrow> run_steps e 1 steps results h)
           in case invoke e h1 CloseBrowser of
                (Inl x, h2) \<Rightarrow> (Inl x, h2)
              | (Inr _, h2) \<Rightarrow> (Inr (results1\<lparr>end_time := Some (Iso (now e h2))\<rparr>), h2)))"

section \<open>Workflow admission\<close>

text \<open>
  \<^verbatim>\<open>GeminiWorkflowGenerator.validate_workflow\<close>. The checks of one step, in the order of the
  source. A step that is no dictionary ends in \<^verbatim>\<open>return False\<close>, directly or through the
  handler of the \<^verbatim>\<open>TypeError\<close> that \<^verbatim>\<open>step["action"]\<close> raises.
\<close>

definition valid_actions :: "json list" where
  "valid_actions =
     [JStr ''navigate'', JStr ''click'', JStr ''type'', JStr ''wait'', JStr ''get_text'',
      JStr ''screenshot'']"

fun validate_step :: "json \<Rightarrow> bool" where
  "validate_step (JDict step) =
     (if \<not> has_key step ''action'' then False
      else if dget step ''action'' \<notin> set valid_actions then False
      else if dget step ''action'' = JStr ''navigate'' then
        (if \<not> has_key step ''url'' then False else True)
      else if dget step ''action'' \<in> set [JStr ''click'', JStr ''type'', JStr ''wait'', JStr ''get_text''] then
        (if \<not> has_key step ''selector'' then False else True)
      else if dget step ''action'' = JStr ''type'' then
        (if \<not> has_key step ''text'' then False else True)
      else True)"
| "validate_step v = False"

fun validate_steps :: "json list \<Rightarrow> bool" where
  "validate_steps [] = True"
| "validate_steps (step # rest) = (if validate_step step then validate_steps rest else False)"

definition validate_workflow :: "pydict \<Rightarrow> bool" where
  "validate_workflow workflow =
     (if \<not> has_key workflow ''name'' then False
      else if \<not> has_key workflow ''description'' then False
      else if \<not> has_key workflow ''steps'' then False
      else (case dget workflow ''steps'' of
              JList steps \<Rightarrow> validate_steps steps
            | _ \<Rightarrow> False))"

section \<open>Time arithmetic and parsing\<close>

text \<open>Comparison of datetimes, \<^verbatim>\<open>replace\<close> with its range check, and adding a timedelta.\<close>

definition dt_less :: "datetime \<Rightarrow> datetime \<Rightarrow> bool" where
  "dt_less a b =
     (ordinal a < ordinal b \<or> (ordinal a = ordinal b \<and>
       (hour a < hour b \<or> (hour a = hour b \<and>
         (minute a < minute b \<or> (minute a = minute b \<and>
           (second a < second b \<or> (second a = second b \<and>
             microsecond a < microsecond b))))))))"

definition dt_le :: "datetime \<Rightarrow> datetime \<Rightarrow> bool" where
  "dt_le a b = (dt_less a b \<or> a = b)"

definition replace_hm :: "datetime \<Rightarrow> int \<Rightarrow> int \<Rightarrow> datetime option" where
  "replace_hm d h m =
     (if 0 \<le> h \<and> h \<le> 23 \<and> 0 \<le> m \<and> m \<le> 59
      then Some (d\<lparr>hour := nat h, minute := nat m, second := 0, microsecond := 0\<rparr>)
      else None)"

definition plus_days :: "datetime \<Rightarrow> int \<Rightarrow> datetime" where
  "plus_days d n = d\<lparr>ordinal := ordinal d + n\<rparr>"

definition plus_minutes :: "datetime \<Rightarrow> int \<Rightarrow> datetime" where
  "plus_minutes d m =
     (let total = int (hour d) * 60 + int (minute d) + m
      in d\<lparr>ordinal := ordinal d + total div 1440,
            hour := nat ((total mod 1440) div 60),
            minute := nat (total mod 60)\<rparr>)"

text \<open>\<^verbatim>\<open>s.split(':')\<close>.\<close>

fun split_on :: "char \<Rightarrow> string \<Rightarrow> string list" where
  "split_on c [] = [[]]"
| "split_on c (x # xs) =
     (if x = c then [] # split_on c xs
      else (case split_on c xs of
              p # ps \<Rightarrow> (x # p) # ps
            | [] \<Rightarrow> [[x]]))"

text \<open>
  \<^verbatim>\<open>int(s)\<close> on ASCII text: surrounding whitespace, an optional sign, then decimal digits
  with single underscores allowed between digits. \<open>None\<close> is \<^verbatim>\<open>ValueError\<close>.
\<close>

definition is_space :: "char \<Rightarrow> bool" where
  "is_space c = (c \<in> set [CHR '' '', CHR 0x09, CHR 0x0A, CHR 0x0B, CHR 0x0C, CHR 0x0D])"

definition is_digit :: "char \<Rightarrow> bool" where
  "is_digit c = (c \<in> set ''0123456789'')"

definition digit_val :: "char \<Rightarrow> int" where
  "digit_val c = int (of_char c) - 48"

definition strip :: "string \<Rightarrow> string" where
  "strip s = rev (dropWhile is_space (rev (dropWhile is_space s)))"

fun py_digits_acc :: "int \<Rightarrow> string \<Rightarrow> int option" where
  "py_digits_acc acc [] = Some acc"
| "py_digits_acc acc [c] = (if is_digit c then Some (acc * 10 + digit_val c) else None)"
| "py_digits_acc acc (c # d # cs) =
     (if is_digit c then py_digits_acc (acc * 10 + digit_val c) (d # cs)
      else if c = CHR ''_'' \<and> is_digit d then py_digits_acc (acc * 10 + digit_val d) cs
      else None)"

definition py_digits :: "string \<Rightarrow> int option" where
  "py_digits s =
     (case s of
        [] \<Rightarrow> None
      | c # cs \<Rightarrow> if is_digit c then py_digits_acc (digit_val c) cs else None)"

definition py_int :: "string \<Rightarrow> int option" where
  "py_int s =
     (case strip s of
        [] \<Rightarrow> None
      | c # cs \<Rightarrow>
          if c = CHR ''-'' then map_option uminus (py_digits cs)
          else if c = CHR ''+'' then py_digits cs
          else py_digits (c # cs))"

section \<open>The scheduler\<close>

text \<open>
  The \<^verbatim>\<open>schedule\<close> package and the file system are outside the program. \<open>at_accepts\<close> says
  which time strings \<^verbatim>\<open>schedule.every().day.at\<close> takes without raising. \<open>every_answer\<close>
  says what \<^verbatim>\<open>schedule.every(n).minutes.do\<close> does for an interval: it registers the job,
  raises \<^verbatim>\<open>OverflowError\<close>, or never returns. \<open>clk\<close> is the wall clock, indexed by the
  number of earlier reads; \<open>save_results_error\<close> and \<open>write_error\<close> say what writing a
  results file or a schedule file raises, if anything; \<open>stamp\<close> is
  \<^verbatim>\<open>strftime("%Y%m%d_%H%M%S")\<close>.
\<close>

datatype package_answer = Registers | Overflows | Hangs

record sched_env =
  clk :: "nat \<Rightarrow> datetime"
  at_accepts :: "string \<Rightarrow> bool"
  every_answer :: "int \<Rightarrow> package_answer"
  save_results_error :: "run_result \<Rightarrow> string option"
  write_error :: "string option"
  stamp :: "datetime \<Rightarrow> string"

datatype time_field = AsDatetime datetime | AsText iso

text \<open>
  A registry entry. The keys \<^verbatim>\<open>schedule_time\<close>, \<^verbatim>\<open>interval_minutes\<close>, \<^verbatim>\<open>last_result\<close> and
  \<^verbatim>\<open>last_error\<close> are present in some entries only: \<open>None\<close> is an absent key.
\<close>

record job_info =
  workflow :: pydict
  schedule_time :: "string option"
  interval_minutes :: "int option"
  repeat :: bool
  created_at :: iso
  last_run :: "iso option"
  next_run :: time_field
  last_result :: "run_result option"
  last_error :: "exn option"

datatype lib_trigger = DailyAt string | EveryMinutes int

text \<open>
  The state: the registry \<^verbatim>\<open>self.scheduled_jobs\<close> in insertion order, the tagged jobs held
  by the \<^verbatim>\<open>schedule\<close> package, and the number of clock reads so far.
\<close>

record scheduler =
  scheduled_jobs :: "(string \<times> job_info) list"
  library_jobs :: "(string \<times> lib_trigger) list"
  clock_reads :: nat

definition has_job :: "scheduler \<Rightarrow> string \<Rightarrow> bool" where
  "has_job st name = (map_of (scheduled_jobs st) name \<noteq> None)"

text \<open>
  \<^verbatim>\<open>_get_next_run_time\<close>, reading the clock from read number \<open>t\<close> on; the result comes with
  the number of the next read. Any exception in the computation leads to the fallback,
  which reads the clock again.
\<close>

definition get_next_run_time :: "sched_env \<Rightarrow> nat \<Rightarrow> string \<Rightarrow> datetime \<times> nat" where
  "get_next_run_time se t time_str =
     (case map py_int (split_on CHR '':'' time_str) of
        [Some h, Some m] \<Rightarrow>
          (let cur = clk se t in
           case replace_hm cur h m of
             Some nr \<Rightarrow>
               (if dt_le nr cur then plus_days nr 1 else nr, t + 1)
           | None \<Rightarrow> (plus_days (clk se (t + 1)) 1, t + 2))
      | _ \<Rightarrow> (plus_days (clk se t) 1, t + 1))"

text \<open>
  \<^verbatim>\<open>schedule_workflow\<close>. When the package rejects the time string, the exception leaves
  the function before anything is stored.
\<close>

definition schedule_workflow ::
  "sched_env \<Rightarrow> scheduler \<Rightarrow> pydict \<Rightarrow> string \<Rightarrow> string option \<Rightarrow> bool \<Rightarrow> exn + (string \<times> scheduler)" where
  "schedule_workflow se st wflow time_str job_name rep =
     (let name = (case job_name of
                    None \<Rightarrow> ''workflow_'' @ str_of_nat (length (scheduled_jobs st) + 1)
                  | Some n \<Rightarrow> if n = [] then ''workflow_'' @ str_of_nat (length (scheduled_jobs st) + 1)
                              else n)
      in if \<not> at_accepts se time_str then Inl ScheduleValueError
         else
           (let created = clk se (clock_reads st);
                (nr, t) = get_next_run_time se (clock_reads st + 1) time_str;
                info = \<lparr>workflow = wflow,
                        schedule_time = Some time_str,
                        interval_minutes = None,
                        repeat = rep,
                        created_at = Iso created,
                        last_run = None,
                        next_run = AsDatetime nr,
                        last_result = None,
                        last_error = None\<rparr>
            in Inr (name,
                    st\<lparr>scheduled_jobs := AList.update name info (scheduled_jobs st),
                       library_jobs := library_jobs st @ [(name, DailyAt time_str)],
                       clock_reads := t\<rparr>)))"

text \<open>
  \<^verbatim>\<open>schedule_interval_workflow\<close>. The call of the package comes first: when it raises,
  the exception leaves the function before anything is stored, and when it does not
  return, neither does the function (\<open>None\<close>).
\<close>

definition schedule_interval_workflow ::
  "sched_env \<Rightarrow> scheduler \<Rightarrow> pydict \<Rightarrow> int \<Rightarrow> string option \<Rightarrow> (exn + (string \<times> scheduler)) option" where
  "schedule_interval_workflow se st wflow minutes job_name =
     (let name = (case job_name of
                    None \<Rightarrow> ''interval_workflow_'' @ str_of_nat (length (scheduled_jobs st) + 1)
                  | Some n \<Rightarrow> if n = [] then ''interval_workflow_'' @ str_of_nat (length (scheduled_jobs st) + 1)
                              else n);
          info = \<lparr>workflow = wflow,
                  schedule_time = None,
                  interval_minutes = Some minutes,
                  repeat = True,
                  created_at = Iso (clk se (clock_reads st)),
                  last_run = None,
                  next_run = AsDatetime (plus_minutes (clk se (clock_reads st + 1)) minutes),
                  last_result = None,
                  last_error = None\<rparr>
      in case every_answer se minutes of
           Hangs \<Rightarrow> None
         | Overflows \<Rightarrow> Some (Inl OverflowError)
         | Registers \<Rightarrow>
             Some (Inr (name,
               st\<lparr>scheduled_jobs := AList.update name info (scheduled_jobs st),
                  library_jobs := library_jobs st @ [(name, EveryMinutes minutes)],
                  clock_reads := clock_reads st + 2\<rparr>)))"

text \<open>
  \<^verbatim>\<open>_execute_scheduled_workflow\<close>: the run of a dispatched job. The handler catches every
  \<^verbatim>\<open>Exception\<close>; an exception of \<open>execute_workflow\<close> that is no \<^verbatim>\<open>Exception\<close> leaves the
  function, with the registry as it was. The result is the exception that leaves the
  function, if any, and the state.
\<close>

definition set_last_error :: "scheduler \<Rightarrow> string \<Rightarrow> exn \<Rightarrow> scheduler" where
  "set_last_error st name x =
     (if has_job st name
      then st\<lparr>scheduled_jobs := AList.map_entry name (\<lambda>j. j\<lparr>last_error := Some x\<rparr>) (scheduled_jobs st)\<rparr>
      else st)"

definition execute_scheduled_workflow ::
  "env \<Rightarrow> sched_env \<Rightarrow> scheduler \<Rightarrow> pydict \<Rightarrow> string \<Rightarrow> exn option \<times> scheduler" where
  "execute_scheduled_workflow e se st wflow name =
     (case fst (execute_workflow e wflow) of
        Inl x \<Rightarrow> if is_exception x then (None, set_last_error st name x) else (Some x, st)
      | Inr results \<Rightarrow>
          (let st1 = (if has_job st name
                      then st\<lparr>scheduled_jobs :=
                                AList.map_entry name
                                  (\<lambda>j. j\<lparr>last_run := Some (Iso (clk se (clock_reads st))),
                                         last_result := Some results\<rparr>)
                                  (scheduled_jobs st),
                              clock_reads := clock_reads st + 1\<rparr>
                      else st);
               st2 = st1\<lparr>clock_reads := clock_reads st1 + 1\<rparr>
           in case save_results_error se results of
                None \<Rightarrow> (None, st2)
              | Some m \<Rightarrow> (None, set_last_error st2 name (OSError m))))"

text \<open>
  \<^verbatim>\<open>remove_job\<close>. Neither \<^verbatim>\<open>schedule.clear(tag)\<close> nor the dictionary operations raise for
  a string, so the handler that returns \<^verbatim>\<open>False\<close> is never entered.
\<close>

definition remove_job :: "scheduler \<Rightarrow> string \<Rightarrow> bool \<times> scheduler" where
  "remove_job st name =
     (let lib = filter (\<lambda>j. fst j \<noteq> name) (library_jobs st);
          jobs = (if has_job st name then AList.delete name (scheduled_jobs st)
                  else scheduled_jobs st)
      in (True, st\<lparr>scheduled_jobs := jobs, library_jobs := lib\<rparr>))"

section \<open>Persistence\<close>

text \<open>
  The copy of one entry that \<^verbatim>\<open>save_schedule\<close> writes: a \<^verbatim>\<open>next_run\<close> that is a
  datetime is replaced by its ISO text.
\<close>

definition saved_entry :: "string \<times> job_info \<Rightarrow> string \<times> job_info" where
  "saved_entry nj =
     (fst nj, case next_run (snd nj) of
                AsDatetime d \<Rightarrow> (snd nj)\<lparr>next_run := AsText (Iso d)\<rparr>
              | AsText s \<Rightarrow> snd nj)"

text \<open>\<^verbatim>\<open>os.path.join(d, f)\<close> on a POSIX system, for a directory name without a final slash.\<close>

definition path_join :: "string \<Rightarrow> string \<Rightarrow> string" where
  "path_join d f = (case f of
                      [] \<Rightarrow> d @ ''/''
                    | c # cs \<Rightarrow> if c = CHR ''/'' then f else d @ ''/'' @ f)"

text \<open>
  \<^verbatim>\<open>save_schedule\<close>: the dictionary written to the file, with the file path and the state
  after the clock read for a default file name; \<open>Inl\<close> when writing raises.
\<close>

definition save_schedule ::
  "sched_env \<Rightarrow> scheduler \<Rightarrow> string option \<Rightarrow> exn + (string \<times> (string \<times> job_info) list \<times> scheduler)" where
  "save_schedule se st filename =
     (let (fname, st1) =
            (case filename of
               None \<Rightarrow> (''schedule_'' @ stamp se (clk se (clock_reads st)) @ ''.json'',
                        st\<lparr>clock_reads := clock_reads st + 1\<rparr>)
             | Some f \<Rightarrow> if f = []
                         then (''schedule_'' @ stamp se (clk se (clock_reads st)) @ ''.json'',
                               st\<lparr>clock_reads := clock_reads st + 1\<rparr>)
                         else (f, st));
          schedule_data = map saved_entry (scheduled_jobs st)
      in case write_error se of
           Some m \<Rightarrow> Inl (OSError m)
         | None \<Rightarrow> Inr (path_join ''schedules'' fname, schedule_data, st1))"

text \<open>
  \<^verbatim>\<open>load_schedule\<close>, given what reading the file yields (\<open>Inl\<close> when \<^verbatim>\<open>open\<close> or
  \<^verbatim>\<open>json.load\<close> raises). The jobs are scheduled again one by one; an exception leaves the
  jobs loaded so far in place. \<open>None\<close>: the function does not return, because a call of
  the package does not.
\<close>

fun load_jobs ::
  "sched_env \<Rightarrow> scheduler \<Rightarrow> (string \<times> job_info) list \<Rightarrow> (exn option \<times> scheduler) option" where
  "load_jobs se st [] = Some (None, st)"
| "load_jobs se st ((name, info) # rest) =
     (case interval_minutes info of
        Some minutes \<Rightarrow>
          (case schedule_interval_workflow se st (workflow info) minutes (Some name) of
             None \<Rightarrow> None
           | Some (Inl x) \<Rightarrow> Some (Some x, st)
           | Some (Inr (n, st')) \<Rightarrow> load_jobs se st' rest)
      | None \<Rightarrow>
          (case schedule_time info of
             None \<Rightarrow> Some (Some (KeyError ''schedule_time''), st)
           | Some t \<Rightarrow>
               (case schedule_workflow se st (workflow info) t (Some name) (repeat info) of
                  Inl x \<Rightarrow> Some (Some x, st)
                | Inr (n, st') \<Rightarrow> load_jobs se st' rest)))"

definition load_schedule ::
  "sched_env \<Rightarrow> scheduler \<Rightarrow> string + (string \<times> job_info) list
     \<Rightarrow> (exn option \<times> scheduler) option" where
  "load_schedule se st file =
     (case file of
        Inl m \<Rightarrow> Some (Some (OSError m), st)
      | Inr schedule_data \<Rightarrow>
          load_jobs se (st\<lparr>scheduled_jobs := [], library_jobs := []\<rparr>) schedule_data)"

section \<open>Notions used to state the properties\<close>

text \<open>
  A time of day in the \<^verbatim>\<open>HH:MM\<close> format of the docstring of \<^verbatim>\<open>schedule_workflow\<close>, and
  a datetime moved to that time of day.
\<close>

definition two_digits :: "nat \<Rightarrow> string" where
  "two_digits n = [''0123456789'' ! (n div 10), ''0123456789'' ! (n mod 10)]"

definition hhmm :: "nat \<Rightarrow> nat \<Rightarrow> string" where
  "hhmm h m = two_digits h @ '':'' @ two_digits m"

definition at_time :: "datetime \<Rightarrow> nat \<Rightarrow> nat \<Rightarrow> datetime" where
  "at_time d h m = d\<lparr>hour := h, minute := m, second := 0, microsecond := 0\<rparr>"

text \<open>
  The clock value \<open>d\<close> is after, or before, the time of day \<open>h:m:00\<close> of its own day.
\<close>

definition clock_after :: "datetime \<Rightarrow> nat \<Rightarrow> nat \<Rightarrow> bool" where
  "clock_after d h m =
     (h < hour d \<or> (hour d = h \<and>
       (m < minute d \<or> (minute d = m \<and> (0 < second d \<or> 0 < microsecond d)))))"

definition clock_before :: "datetime \<Rightarrow> nat \<Rightarrow> nat \<Rightarrow> bool" where
  "clock_before d h m = (hour d < h \<or> (hour d = h \<and> minute d < m))"

text \<open>The trigger of a registry entry: the keys that say when the job runs.\<close>

definition trigger_spec :: "job_info \<Rightarrow> string option \<times> int option \<times> bool" where
  "trigger_spec j = (schedule_time j, interval_minutes j, repeat j)"

definition job_triggers :: "(string \<times> job_info) list \<Rightarrow> (string \<times> string option \<times> int option \<times> bool) list" where
  "job_triggers jobs = map (\<lambda>nj. (fst nj, trigger_spec (snd nj))) jobs"

text \<open>
  What the scheduling operations establish for every entry of the registry: names are
  unique and not empty; an interval job has no \<^verbatim>\<open>schedule_time\<close>, repeats, and its
  interval was taken by the \<^verbatim>\<open>schedule\<close> package; the time string of a daily job was
  accepted by the package.
\<close>

definition entry_ok :: "sched_env \<Rightarrow> string \<times> job_info \<Rightarrow> bool" where
  "entry_ok se nj =
     (fst nj \<noteq> [] \<and>
      (case interval_minutes (snd nj) of
         Some m \<Rightarrow> schedule_time (snd nj) = None \<and> repeat (snd nj)
                    \<and> every_answer se m = Registers
       | None \<Rightarrow> (case schedule_time (snd nj) of
                    Some t \<Rightarrow> at_accepts se t
                  | None \<Rightarrow> False)))"

definition registry_ok :: "sched_env \<Rightarrow> scheduler \<Rightarrow> bool" where
  "registry_ok se st =
     (distinct (map fst (scheduled_jobs st)) \<and> list_all (entry_ok se) (scheduled_jobs st))"

definition empty_scheduler :: scheduler where
  "empty_scheduler = \<lparr>scheduled_jobs = [], library_jobs = [], clock_reads = 0\<rparr>"

text \<open>The scheduler states that the public operations can produce from the empty one.\<close>

inductive reachable :: "sched_env \<Rightarrow> scheduler \<Rightarrow> bool" for se :: sched_env where
  initial: "reachable se empty_scheduler"
| daily: "reachable se st \<Longrightarrow> schedule_workflow se st w t n rep = Inr (name, st')
            \<Longrightarrow> reachable se st'"
| interval: "reachable se st \<Longrightarrow> schedule_interval_workflow se st w m n = Some (Inr (name, st'))
            \<Longrightarrow> reachable se st'"
| removed: "reachable se st \<Longrightarrow> reachable se (snd (remove_job st name))"
| dispatched: "reachable se st \<Longrightarrow> reachable se (snd (execute_scheduled_workflow e se st w name))"
| loaded: "reachable se st \<Longrightarrow> load_schedule se st src = Some (x, st') \<Longrightarrow> reachable se st'"

section \<open>Example inputs\<close>

definition demo_time :: datetime where
  "demo_time = \<lparr>ordinal = 739000, hour = 8, minute = 30, second = 15, microsecond = 0\<rparr>"

definition demo_workflow :: pydict where
  "demo_workflow =
     [(''name'', JStr ''T1''), (''description'', JStr ''demo''),
      (''steps'', JList [JDict [(''action'', JStr ''navigate''), (''url'', JStr ''https://example.com'')],
                         JDict [(''action'', JStr ''screenshot''), (''path'', JStr ''s.png'')]])]"

text \<open>A browser that cannot be started; closing the engine that never started is quiet.\<close>

definition start_fails_env :: env where
  "start_fails_env =
     \<lparr>respond = (\<lambda>h c. if c = StartBrowser then Inl (EngineError ''no browser'') else Inr JNull),
      now = (\<lambda>h. demo_time),
      strftime = (\<lambda>d. ''20240101_083015'')\<rparr>"


text \<open>A browser where only taking a screenshot raises.\<close>

definition shot_fails_env :: env where
  "shot_fails_env =
     \<lparr>respond = (\<lambda>h c. if c = TakeScreenshot (JStr ''s.png'') then Inl (EngineError ''disk full'')
                       else Inr JNull),
      now = (\<lambda>h. demo_time),
      strftime = (\<lambda>d. ''20240101_083015'')\<rparr>"


text \<open>A run that is cancelled while it awaits the start of the browser.\<close>

definition cancelled_start_env :: env where
  "cancelled_start_env =
     \<lparr>respond = (\<lambda>h c. if c = StartBrowser then Inl (Interrupted ''CancelledError'')
                       else Inr JNull),
      now = (\<lambda>h. demo_time),
      strftime = (\<lambda>d. ''20240101_083015'')\<rparr>"

text \<open>
  A scheduler environment at 08:30:15 whose \<^verbatim>\<open>schedule\<close> package takes time strings of
  five or eight characters (as \<^verbatim>\<open>HH:MM\<close> and \<^verbatim>\<open>HH:MM:SS\<close> are) and positive intervals, and
  the registry after scheduling \<^verbatim>\<open>job\<close> daily at 09:00 in it.
\<close>

definition demo_sched_env :: sched_env where
  "demo_sched_env =
     \<lparr>clk = (\<lambda>n. demo_time),
      at_accepts = (\<lambda>s. length s = 5 \<or> length s = 8),
      every_answer = (\<lambda>n. if 0 < n then Registers else if n = 0 then Hangs else Overflows),
      save_results_error = (\<lambda>r. None),
      write_error = None,
      stamp = (\<lambda>d. ''20240101_083015'')\<rparr>"

definition one_job_registry :: scheduler where
  "one_job_registry =
     \<lparr>scheduled_jobs =
        [(''job'', \<lparr>workflow = demo_workflow, schedule_time = Some ''09:00'',
                    interval_minutes = None, repeat = False, created_at = Iso demo_time,
                    last_run = None, next_run = AsDatetime (at_time demo_time 9 0),
                    last_result = None, last_error = None\<rparr>)],
      library_jobs = [(''job'', DailyAt ''09:00'')],
      clock_reads = 2\<rparr>"

definition type_without_text :: pydict where
  "type_without_text =
     [(''name'', JStr ''W''), (''description'', JStr ''fill a field''),
      (''steps'', JList [JDict [(''action'', JStr ''type''), (''selector'', JStr ''#q'')]])]"

text \<open>The registry after also scheduling \<^verbatim>\<open>poll\<close> every 30 minutes.\<close>

definition two_job_registry :: scheduler where
  "two_job_registry =
     \<lparr>scheduled_jobs =
        [(''job'', \<lparr>workflow = demo_workflow, schedule_time = Some ''09:00'',
                    interval_minutes = None, repeat = False, created_at = Iso demo_time,
                    last_run = None, next_run = AsDatetime (at_time demo_time 9 0),
                    last_result = None, last_error = None\<rparr>),
         (''poll'', \<lparr>workflow = type_without_text, schedule_time = None,
                     interval_minutes = Some 30, repeat = True, created_at = Iso demo_time,
                     last_run = None, next_run = AsDatetime (plus_minutes demo_time 30),
                     last_result = None, last_error = None\<rparr>)],
      library_jobs = [(''job'', DailyAt ''09:00''), (''poll'', EveryMinutes 30)],
      clock_reads = 4\<rparr>"

section \<open>The step loop\<close>











section \<open>Failure to start the browser\<close>

text \<open>
  C2 (as amended). When \<open>start_browser\<close> raises an \<^verbatim>\<open>Exception\<close>, \<open>execute_workflow\<close> does
  not pass it on: no step is attempted, the browser is closed, and the result returned
  has \<open>success = False\<close>, \<open>steps_executed = 0\<close> and the single error
  \<^verbatim>\<open>Workflow execution failed: ...\<close>. The function raises only when closing raises.
\<close>

theorem start_failure_is_captured:
  assumes "steps_of wflow = Inr steps" and "respond e [] StartBrowser = Inl x"
    and "is_exception x"
  shows "execute_workflow e wflow =
     (case respond e [Call StartBrowser] CloseBrowser of
        Inl x' \<Rightarrow> (Inl x', [Call StartBrowser, Call CloseBrowser])
      | Inr v \<Rightarrow>
          (Inr \<lparr>workflow_name = dget_default wflow ''name'' (JStr ''Unknown''),
                start_time = Iso (now e []),
                steps_executed = 0,
                total_steps = length steps,
                success = False,
                errors = [WorkflowFailed x],
                screenshots = [],
                extracted_data = [],
                end_time = Some (Iso (now e [Call StartBrowser, Call CloseBrowser]))\<rparr>,
           [Call StartBrowser, Call CloseBrowser]))"
  using assms
  by (simp add: execute_workflow_def init_results_def invoke_def split: sum.splits)

theorem start_failure_is_captured_witness:
  "steps_of demo_workflow =
     Inr [JDict [(''action'', JStr ''navigate''), (''url'', JStr ''https://example.com'')],
          JDict [(''action'', JStr ''screenshot''), (''path'', JStr ''s.png'')]]
   \<and> respond start_fails_env [] StartBrowser = Inl (EngineError ''no browser'')
   \<and> is_exception (EngineError ''no browser'')
   \<and> snd (execute_workflow start_fails_env demo_workflow) = [Call StartBrowser, Call CloseBrowser]"
proof -
  have p1: "steps_of demo_workflow =
     Inr [JDict [(''action'', JStr ''navigate''), (''url'', JStr ''https://example.com'')],
          JDict [(''action'', JStr ''screenshot''), (''path'', JStr ''s.png'')]]"
    by (simp add: steps_of_def demo_workflow_def dget_default_def)
  have p2: "respond start_fails_env [] StartBrowser = Inl (EngineError ''no browser'')"
    by (simp add: start_fails_env_def)
  have p3: "is_exception (EngineError ''no browser'')" by simp
  from start_failure_is_captured[OF p1 p2 p3] p1 p2 show ?thesis
    by (simp add: start_fails_env_def)
qed

text \<open>
  The claim as stated fails: with a browser that cannot start, \<open>execute_workflow\<close>
  returns a failed result and raises nothing. When the start is cancelled it raises
  nothing either, and the result returned has \<open>success = True\<close> and no error.
\<close>

theorem start_failure_returns_result_counterexample:
  "fst (execute_workflow start_fails_env demo_workflow) =
     Inr \<lparr>workflow_name = JStr ''T1'',
          start_time = Iso demo_time,
          steps_executed = 0,
          total_steps = 2,
          success = False,
          errors = [WorkflowFailed (EngineError ''no browser'')],
          screenshots = [],
          extracted_data = [],
          end_time = Some (Iso demo_time)\<rparr>
   \<and> fst (execute_workflow cancelled_start_env demo_workflow) =
     Inr \<lparr>workflow_name = JStr ''T1'',
          start_time = Iso demo_time,
          steps_executed = 0,
          total_steps = 2,
          success = True,
          errors = [],
          screenshots = [],
          extracted_data = [],
          end_time = Some (Iso demo_time)\<rparr>"
  by (simp add: execute_workflow_def init_results_def invoke_def start_fails_env_def
        cancelled_start_env_def demo_workflow_def steps_of_def dget_default_def)

section \<open>Admission of a type step without text\<close>

text \<open>
  C3. The claim says that a workflow with a \<^verbatim>\<open>type\<close> step that has a selector and no
  \<^verbatim>\<open>text\<close> is rejected. The check for \<^verbatim>\<open>text\<close> sits in a branch that the branch for
  \<^verbatim>\<open>click\<close>, \<^verbatim>\<open>type\<close>, \<^verbatim>\<open>wait\<close>, \<^verbatim>\<open>get_text\<close> shadows, so the code accepts such a workflow.
\<close>

theorem validate_accepts_type_without_text:
  "validate_workflow type_without_text = True
   \<and> \<not> has_key [(''action'', JStr ''type''), (''selector'', JStr ''#q'')] ''text''"
  by (simp add: validate_workflow_def type_without_text_def has_key_def dget_def valid_actions_def)

section \<open>Defaults and parameter checks of the step executor\<close>

text \<open>
  C9. A \<^verbatim>\<open>click\<close>, \<^verbatim>\<open>type\<close>, \<^verbatim>\<open>wait\<close> or \<^verbatim>\<open>get_text\<close> step without the key
  \<^verbatim>\<open>selector_type\<close> that passes its parameter check makes exactly one engine call, with
  \<^verbatim>\<open>"css"\<close> as the selector type; a \<^verbatim>\<open>wait\<close> step without the key \<^verbatim>\<open>timeout\<close> calls with
  timeout 10. A step of these kinds that fails its parameter check makes no call.
\<close>

theorem step_parameter_defaults:
  "(dget step ''action'' = JStr ''click'' \<and> \<not> has_key step ''selector_type''
        \<and> truthy (dget step ''selector'')
      \<longrightarrow> snd (execute_step e step r h) =
            h @ [Call (ClickElement (dget step ''selector'') (JStr ''css''))])
 \<and> (dget step ''action'' = JStr ''type'' \<and> \<not> has_key step ''selector_type''
        \<and> truthy (dget step ''selector'') \<and> truthy (dget step ''text'')
      \<longrightarrow> snd (execute_step e step r h) =
            h @ [Call (TypeText (dget step ''selector'') (dget step ''text'') (JStr ''css''))])
 \<and> (dget step ''action'' = JStr ''wait'' \<and> \<not> has_key step ''selector_type''
        \<and> truthy (dget step ''selector'')
      \<longrightarrow> snd (execute_step e step r h) =
            h @ [Call (WaitForElement (dget step ''selector'')
                         (dget_default step ''timeout'' (JInt 10)) (JStr ''css''))])
 \<and> (dget step ''action'' = JStr ''get_text'' \<and> \<not> has_key step ''selector_type''
        \<and> truthy (dget step ''selector'')
      \<longrightarrow> snd (execute_step e step r h) =
            h @ [Call (GetText (dget step ''selector'') (JStr ''css''))])
 \<and> (dget step ''action'' = JStr ''wait'' \<and> \<not> has_key step ''timeout''
        \<and> truthy (dget step ''selector'')
      \<longrightarrow> snd (execute_step e step r h) =
            h @ [Call (WaitForElement (dget step ''selector'') (JInt 10)
                         (dget_default step ''selector_type'' (JStr ''css'')))])
 \<and> (dget step ''action'' \<in> {JStr ''click'', JStr ''type'', JStr ''wait'', JStr ''get_text''}
        \<and> \<not> truthy (dget step ''selector'')
      \<longrightarrow> snd (execute_step e step r h) = h)"
  by (simp add: execute_step_def Let_def invoke_def has_key_def dget_default_def
           split: sum.splits prod.splits)

theorem step_parameter_defaults_witness:
  "snd (execute_step shot_fails_env [(''action'', JStr ''click''), (''selector'', JStr ''#go'')]
          (init_results shot_fails_env demo_workflow 1) [Call StartBrowser])
     = [Call StartBrowser, Call (ClickElement (JStr ''#go'') (JStr ''css''))]
   \<and> snd (execute_step shot_fails_env
            [(''action'', JStr ''type''), (''selector'', JStr ''#q''), (''text'', JStr ''abc'')]
            (init_results shot_fails_env demo_workflow 1) [Call StartBrowser])
     = [Call StartBrowser, Call (TypeText (JStr ''#q'') (JStr ''abc'') (JStr ''css''))]
   \<and> snd (execute_step shot_fails_env [(''action'', JStr ''wait''), (''selector'', JStr ''#done'')]
            (init_results shot_fails_env demo_workflow 1) [Call StartBrowser])
     = [Call StartBrowser, Call (WaitForElement (JStr ''#done'') (JInt 10) (JStr ''css''))]
   \<and> snd (execute_step shot_fails_env [(''action'', JStr ''get_text''), (''selector'', JStr ''h1'')]
            (init_results shot_fails_env demo_workflow 1) [Call StartBrowser])
     = [Call StartBrowser, Call (GetText (JStr ''h1'') (JStr ''css''))]
   \<and> snd (execute_step shot_fails_env [(''action'', JStr ''click'')]
            (init_results shot_fails_env demo_workflow 1) [Call StartBrowser])
     = [Call StartBrowser]"
  using
    step_parameter_defaults[of "[(''action'', JStr ''click''), (''selector'', JStr ''#go'')]"
      shot_fails_env "init_results shot_fails_env demo_workflow 1" "[Call StartBrowser]"]
    step_parameter_defaults[of
      "[(''action'', JStr ''type''), (''selector'', JStr ''#q''), (''text'', JStr ''abc'')]"
      shot_fails_env "init_results shot_fails_env demo_workflow 1" "[Call StartBrowser]"]
    step_parameter_defaults[of "[(''action'', JStr ''wait''), (''selector'', JStr ''#done'')]"
      shot_fails_env "init_results shot_fails_env demo_workflow 1" "[Call StartBrowser]"]
    step_parameter_defaults[of "[(''action'', JStr ''get_text''), (''selector'', JStr ''h1'')]"
      shot_fails_env "init_results shot_fails_env demo_workflow 1" "[Call StartBrowser]"]
    step_parameter_defaults[of "[(''action'', JStr ''click'')]"
      shot_fails_env "init_results shot_fails_env demo_workflow 1" "[Call StartBrowser]"]
  by (simp add: dget_def dget_default_def has_key_def)

text \<open>
  C10. A \<^verbatim>\<open>type\<close> step with a non-empty selector whose \<^verbatim>\<open>text\<close> is present and is the
  empty string raises the missing-parameter error without any engine call, and the loop
  records the failure of that step and stops.
\<close>

theorem empty_text_fails_type_step:
  assumes "map_of step ''action'' = Some (JStr ''type'')"
    and "truthy (dget step ''selector'')"
    and "map_of step ''text'' = Some (JStr [])"
  shows "execute_step e step r h =
           (Inl (ValueError ''Type action requires 'selector' and 'text' parameters''), h)
         \<and> run_steps e i (JDict step # rest) r h =
           (r\<lparr>errors := errors r @
                 [StepFailed i (ValueError ''Type action requires 'selector' and 'text' parameters'')],
              success := False\<rparr>,
            h @ [Executing i (JStr ''type'')])"
  using assms by (simp add: execute_step_def dget_def dget_default_def)

theorem empty_text_fails_type_step_witness:
  "execute_step shot_fails_env
     [(''action'', JStr ''type''), (''selector'', JStr ''#q''), (''text'', JStr [])]
     (init_results shot_fails_env demo_workflow 1) [Call StartBrowser]
   = (Inl (ValueError ''Type action requires 'selector' and 'text' parameters''), [Call StartBrowser])"
  using empty_text_fails_type_step[of
      "[(''action'', JStr ''type''), (''selector'', JStr ''#q''), (''text'', JStr [])]"
      shot_fails_env "init_results shot_fails_env demo_workflow 1" "[Call StartBrowser]" 1 "[]"]
  by (simp add: dget_def)

section \<open>Scheduling a daily job\<close>

lemma digit_cases:
  "k < 10 \<Longrightarrow> k = 0 \<or> k = 1 \<or> k = 2 \<or> k = 3 \<or> k = 4 \<or> k = 5 \<or> k = 6 \<or> k = 7 \<or> k = 8 \<or> k = (9::nat)"
  by arith

lemma digit_facts:
  assumes "k < 10"
  shows "is_digit (''0123456789'' ! k)" "digit_val (''0123456789'' ! k) = int k"
    "\<not> is_space (''0123456789'' ! k)" "''0123456789'' ! k \<noteq> CHR '':''"
    "''0123456789'' ! k \<noteq> CHR ''-''" "''0123456789'' ! k \<noteq> CHR ''+''"
  using digit_cases[OF assms]
  by (auto simp: is_digit_def digit_val_def is_space_def)

lemma py_int_two_digits:
  assumes "n < 100"
  shows "py_int (two_digits n) = Some (int n)"
proof -
  have a: "n div 10 < 10" and b: "n mod 10 < 10" using assms by auto
  have "int (n div 10) * 10 + int (n mod 10) = int n"
    by (metis of_nat_add of_nat_mult of_nat_numeral div_mult_mod_eq)
  then show ?thesis
    using digit_facts[OF a] digit_facts[OF b]
    by (simp add: py_int_def two_digits_def strip_def py_digits_def)
qed

lemma split_hhmm:
  assumes "h < 100" "m < 100"
  shows "split_on CHR '':'' (hhmm h m) = [two_digits h, two_digits m]"
proof -
  have a: "h div 10 < 10" "h mod 10 < 10" "m div 10 < 10" "m mod 10 < 10" using assms by auto
  show ?thesis
    using a[THEN digit_facts(4)]
    by (simp add: hhmm_def two_digits_def)
qed

lemma dt_less_not_sym: "dt_less a b \<Longrightarrow> \<not> dt_less b a"
  by (auto simp: dt_less_def)

lemma dt_less_irrefl: "\<not> dt_less a a"
  by (auto simp: dt_less_def)

text \<open>For a time of day in range the parse succeeds and the fallback is not taken.\<close>

lemma next_run_hhmm:
  assumes "h < 24" "m < 60"
  shows "get_next_run_time se t (hhmm h m) =
           (if dt_le (at_time (clk se t) h m) (clk se t)
            then plus_days (at_time (clk se t) h m) 1 else at_time (clk se t) h m, t + 1)"
  using assms
  by (simp add: get_next_run_time_def split_hhmm py_int_two_digits replace_hm_def at_time_def Let_def)

lemma at_time_fields:
  "at_time d h m = \<lparr>ordinal = ordinal d, hour = h, minute = m, second = 0, microsecond = 0\<rparr>"
  by (cases d) (simp add: at_time_def)

lemma clock_after_le: "clock_after d h m \<Longrightarrow> dt_le (at_time d h m) d"
  by (cases d) (auto simp: clock_after_def dt_le_def dt_less_def at_time_def)

lemma clock_before_not_le: "clock_before d h m \<Longrightarrow> \<not> dt_le (at_time d h m) d"
  by (cases d) (auto simp: clock_before_def dt_le_def dt_less_def at_time_def)

text \<open>
  C7 (as amended). Let \<open>t\<close> be a time of day written \<open>HH:MM\<close> with \<open>h < 24\<close> and \<open>m < 60\<close>
  that the \<^verbatim>\<open>schedule\<close> package accepts, and let \<open>now\<close> be the clock value that
  \<^verbatim>\<open>_get_next_run_time\<close> reads. Then \<open>schedule_workflow\<close> registers the job, and its
  \<open>next_run\<close> is \<open>h:m:00\<close> on the day after the day of \<open>now\<close> when \<open>now\<close> is after \<open>t\<close> of
  its day, and \<open>h:m:00\<close> on the day of \<open>now\<close> when \<open>now\<close> is before it.
\<close>

theorem daily_next_run:
  assumes "h < 24" "m < 60" "at_accepts se (hhmm h m)"
  shows "\<exists>name st' info.
           schedule_workflow se st wflow (hhmm h m) job_name rep = Inr (name, st')
         \<and> map_of (scheduled_jobs st') name = Some info
         \<and> schedule_time info = Some (hhmm h m)
         \<and> (clock_after (clk se (clock_reads st + 1)) h m
              \<longrightarrow> next_run info =
                    AsDatetime \<lparr>ordinal = ordinal (clk se (clock_reads st + 1)) + 1,
                                hour = h, minute = m, second = 0, microsecond = 0\<rparr>)
         \<and> (clock_before (clk se (clock_reads st + 1)) h m
              \<longrightarrow> next_run info =
                    AsDatetime \<lparr>ordinal = ordinal (clk se (clock_reads st + 1)),
                                hour = h, minute = m, second = 0, microsecond = 0\<rparr>)"
proof -
  let ?now = "clk se (clock_reads st + 1)"
  have a: "clock_after ?now h m \<Longrightarrow>
             fst (get_next_run_time se (clock_reads st + 1) (hhmm h m))
               = \<lparr>ordinal = ordinal ?now + 1, hour = h, minute = m, second = 0, microsecond = 0\<rparr>"
    using assms(1,2) clock_after_le[of ?now h m]
    by (simp add: next_run_hhmm plus_days_def at_time_fields)
  have b: "clock_before ?now h m \<Longrightarrow>
             fst (get_next_run_time se (clock_reads st + 1) (hhmm h m))
               = \<lparr>ordinal = ordinal ?now, hour = h, minute = m, second = 0, microsecond = 0\<rparr>"
    using assms(1,2) clock_before_not_le[of ?now h m]
    by (simp add: next_run_hhmm at_time_fields)
  show ?thesis
    using assms(3) a b
    by (auto simp: schedule_workflow_def Let_def update_conv' split: prod.splits)
qed

theorem daily_next_run_witness:
  "(\<exists>name st' info.
      schedule_workflow demo_sched_env empty_scheduler demo_workflow (hhmm 9 0) (Some ''job'') False
        = Inr (name, st')
      \<and> map_of (scheduled_jobs st') name = Some info
      \<and> next_run info =
          AsDatetime \<lparr>ordinal = 739000, hour = 9, minute = 0, second = 0, microsecond = 0\<rparr>)
 \<and> (\<exists>name st' info.
      schedule_workflow demo_sched_env empty_scheduler demo_workflow (hhmm 8 0) (Some ''job'') False
        = Inr (name, st')
      \<and> map_of (scheduled_jobs st') name = Some info
      \<and> next_run info =
          AsDatetime \<lparr>ordinal = 739001, hour = 8, minute = 0, second = 0, microsecond = 0\<rparr>)"
proof -
  have acc: "at_accepts demo_sched_env (hhmm 9 0)" "at_accepts demo_sched_env (hhmm 8 0)"
    by (simp_all add: demo_sched_env_def hhmm_def two_digits_def)
  have clock: "clk demo_sched_env n = demo_time" for n
    by (simp add: demo_sched_env_def)
  have before: "clock_before demo_time 9 0"
    by (simp add: clock_before_def demo_time_def)
  have after: "clock_after demo_time 8 0"
    by (simp add: clock_after_def demo_time_def)
  have day: "ordinal demo_time = 739000" by (simp add: demo_time_def)
  have h9: "(9::nat) < 24" "(0::nat) < 60" and h8: "(8::nat) < 24" by simp_all
  from daily_next_run[OF h9 acc(1), of empty_scheduler demo_workflow "Some ''job''" False]
    daily_next_run[OF h8 h9(2) acc(2), of empty_scheduler demo_workflow "Some ''job''" False]
    before after
  show ?thesis unfolding clock day by simp blast
qed

text \<open>
  The claim as stated fails for a time of day with seconds, which the package accepts
  too: at 08:30:15, before 09:00:30, the job scheduled for \<^verbatim>\<open>09:00:30\<close> gets the next run
  08:30:15 of the next day, not 09:00:30 of the same day.
\<close>

theorem daily_next_run_counterexample:
  "at_accepts demo_sched_env ''09:00:30''
   \<and> schedule_workflow demo_sched_env empty_scheduler demo_workflow ''09:00:30'' (Some ''job'') False
     = Inr (''job'',
        \<lparr>scheduled_jobs =
           [(''job'', \<lparr>workflow = demo_workflow, schedule_time = Some ''09:00:30'',
                       interval_minutes = None, repeat = False, created_at = Iso demo_time,
                       last_run = None,
                       next_run = AsDatetime \<lparr>ordinal = 739001, hour = 8, minute = 30,
                                               second = 15, microsecond = 0\<rparr>,
                       last_result = None, last_error = None\<rparr>)],
         library_jobs = [(''job'', DailyAt ''09:00:30'')],
         clock_reads = 2\<rparr>)"
proof -
  have "split_on CHR '':'' ''09:00:30'' = [''09'', ''00'', ''30'']" by simp
  then have "get_next_run_time demo_sched_env 1 ''09:00:30'' = (plus_days demo_time 1, 2)"
    by (simp add: get_next_run_time_def demo_sched_env_def split: list.splits option.splits)
  then show ?thesis
    by (simp add: schedule_workflow_def Let_def empty_scheduler_def demo_sched_env_def
        plus_days_def demo_time_def)
qed

section \<open>Scheduling under a name that is taken\<close>





section \<open>Removing a job that is not registered\<close>

text \<open>
  C6. The claim says that removing a name that is not registered returns false. The code
  returns \<^verbatim>\<open>True\<close> on every path that does not raise, whether or not the name was
  registered; the registry is left as it was.
\<close>

theorem remove_absent_job_returns_true:
  "\<not> has_job one_job_registry ''nonexistent''
   \<and> remove_job one_job_registry ''nonexistent'' = (True, one_job_registry)"
  by (simp add: remove_job_def has_job_def one_job_registry_def)

section \<open>The registry after a dispatched run\<close>

lemma map_entry_keys: "map fst (AList.map_entry k f xs) = map fst xs"
  by (induction xs) auto

text \<open>
  C4 (as amended). After the dispatched run of a registered job: when \<open>execute_workflow\<close>
  returned a result, with its success flag set or not, the entry gets the last-run time
  and that result as last result, and a last error only if saving the results file
  raised; when \<open>execute_workflow\<close> raised an \<^verbatim>\<open>Exception\<close>, the entry gets that exception
  as last error and nothing else; any other exception leaves the entry as it was. The
  next-run time of the entry is never recomputed, and the other entries and the names of
  the registry are unchanged.
\<close>

theorem dispatched_run_updates_entry:
  assumes "map_of (scheduled_jobs st) name = Some j"
  shows "map_of (scheduled_jobs (snd (execute_scheduled_workflow e se st wflow name))) name =
           Some (case fst (execute_workflow e wflow) of
                   Inl x \<Rightarrow> if is_exception x then j\<lparr>last_error := Some x\<rparr> else j
                 | Inr r \<Rightarrow>
                     (case save_results_error se r of
                        None \<Rightarrow> j\<lparr>last_run := Some (Iso (clk se (clock_reads st))),
                                  last_result := Some r\<rparr>
                      | Some m \<Rightarrow> j\<lparr>last_run := Some (Iso (clk se (clock_reads st))),
                                    last_result := Some r,
                                    last_error := Some (OSError m)\<rparr>))
       \<and> map_option next_run
           (map_of (scheduled_jobs (snd (execute_scheduled_workflow e se st wflow name))) name)
           = Some (next_run j)
       \<and> map fst (scheduled_jobs (snd (execute_scheduled_workflow e se st wflow name)))
           = map fst (scheduled_jobs st)
       \<and> (\<forall>n. n \<noteq> name \<longrightarrow>
             map_of (scheduled_jobs (snd (execute_scheduled_workflow e se st wflow name))) n
               = map_of (scheduled_jobs st) n)"
  using assms
  by (auto simp: execute_scheduled_workflow_def set_last_error_def has_job_def Let_def
        map_of_map_entry map_entry_keys split: sum.splits option.splits)

theorem dispatched_run_updates_entry_witness:
  "map_option next_run
     (map_of (scheduled_jobs (snd
        (execute_scheduled_workflow shot_fails_env demo_sched_env one_job_registry demo_workflow ''job'')))
        ''job'')
   = Some (AsDatetime (at_time demo_time 9 0))"
proof -
  have p: "map_of (scheduled_jobs one_job_registry) ''job'' =
             Some \<lparr>workflow = demo_workflow, schedule_time = Some ''09:00'',
                   interval_minutes = None, repeat = False, created_at = Iso demo_time,
                   last_run = None, next_run = AsDatetime (at_time demo_time 9 0),
                   last_result = None, last_error = None\<rparr>"
    by (simp add: one_job_registry_def)
  from dispatched_run_updates_entry[OF p, of shot_fails_env demo_sched_env demo_workflow,
      THEN conjunct2, THEN conjunct1]
  show ?thesis by simp
qed

text \<open>
  The claim as stated fails: the run of \<^verbatim>\<open>job\<close> fails at its second step, and afterwards
  the entry has no last error, holds the failed result as last result, and has the
  next-run time it had before.
\<close>

theorem dispatched_run_counterexample:
  "map_option last_error
     (map_of (scheduled_jobs (snd
        (execute_scheduled_workflow shot_fails_env demo_sched_env one_job_registry demo_workflow ''job'')))
        ''job'') = Some None
   \<and> map_option (map_option success \<circ> last_result)
     (map_of (scheduled_jobs (snd
        (execute_scheduled_workflow shot_fails_env demo_sched_env one_job_registry demo_workflow ''job'')))
        ''job'') = Some (Some False)
   \<and> map_option next_run
     (map_of (scheduled_jobs (snd
        (execute_scheduled_workflow shot_fails_env demo_sched_env one_job_registry demo_workflow ''job'')))
        ''job'')
     = map_option next_run (map_of (scheduled_jobs one_job_registry) ''job'')"
  by (simp add: execute_scheduled_workflow_def execute_workflow_def steps_of_def demo_workflow_def
        dget_default_def dget_def shot_fails_env_def invoke_def execute_step_def init_results_def
        has_job_def one_job_registry_def demo_sched_env_def)

section \<open>The registry invariant holds in every reachable state\<close>

lemma list_all_update:
  "list_all P al \<Longrightarrow> P (k, v) \<Longrightarrow> list_all P (AList.update k v al)"
  by (induction al) auto

lemma list_all_map_entry:
  "list_all P al \<Longrightarrow> (\<And>v. P (k, v) \<Longrightarrow> P (k, f v)) \<Longrightarrow> list_all P (AList.map_entry k f al)"
  by (induction al) auto

lemma list_all_delete: "list_all P al \<Longrightarrow> list_all P (AList.delete k al)"
  by (induction al) auto

lemma registry_ok_empty: "registry_ok se empty_scheduler"
  by (simp add: registry_ok_def empty_scheduler_def)

lemma registry_ok_daily:
  assumes "registry_ok se st" "schedule_workflow se st w t n rep = Inr (name, st')"
  shows "registry_ok se st'"
  using assms
  by (auto simp: schedule_workflow_def registry_ok_def Let_def entry_ok_def
        intro!: distinct_update list_all_update split: if_splits prod.splits option.splits)

lemma registry_ok_interval:
  assumes "registry_ok se st" "schedule_interval_workflow se st w m n = Some (Inr (name, st'))"
  shows "registry_ok se st'"
  using assms
  by (auto simp: schedule_interval_workflow_def registry_ok_def Let_def entry_ok_def
        intro!: distinct_update list_all_update
        split: if_splits option.splits package_answer.splits)

lemma registry_ok_remove:
  assumes "registry_ok se st"
  shows "registry_ok se (snd (remove_job st name))"
  using assms
  by (auto simp: remove_job_def registry_ok_def Let_def intro!: distinct_delete list_all_delete)

lemma entry_ok_fields:
  assumes "schedule_time j' = schedule_time j" "interval_minutes j' = interval_minutes j"
    and "repeat j' = repeat j"
  shows "entry_ok se (n, j') = entry_ok se (n, j)"
  using assms by (simp add: entry_ok_def cong: option.case_cong)

lemma registry_ok_map_entry:
  assumes "registry_ok se st"
    and "\<And>j. schedule_time (f j) = schedule_time j \<and> interval_minutes (f j) = interval_minutes j
               \<and> repeat (f j) = repeat j"
  shows "registry_ok se (st\<lparr>scheduled_jobs := AList.map_entry name f (scheduled_jobs st)\<rparr>)"
proof -
  have "entry_ok se (name, f v)" if "entry_ok se (name, v)" for v
    using that assms(2)[of v] entry_ok_fields[of "f v" v se name] by simp
  with assms(1) show ?thesis
    by (auto simp: registry_ok_def intro!: distinct_map_entry list_all_map_entry)
qed

lemma registry_ok_clock: "registry_ok se (s\<lparr>clock_reads := c\<rparr>) = registry_ok se s"
  by (simp add: registry_ok_def)

lemma registry_ok_set_last_error:
  assumes "registry_ok se st"
  shows "registry_ok se (set_last_error st name x)"
  using assms registry_ok_map_entry[OF assms, of "\<lambda>j. j\<lparr>last_error := Some x\<rparr>" name]
  by (simp add: set_last_error_def)

lemma registry_ok_dispatched:
  assumes "registry_ok se st"
  shows "registry_ok se (snd (execute_scheduled_workflow e se st w name))"
proof (cases "fst (execute_workflow e w)")
  case (Inl x)
  with assms show ?thesis
    by (simp add: execute_scheduled_workflow_def registry_ok_set_last_error)
next
  case (Inr r)
  define st1 where "st1 = (if has_job st name
                      then st\<lparr>scheduled_jobs :=
                                AList.map_entry name
                                  (\<lambda>j. j\<lparr>last_run := Some (Iso (clk se (clock_reads st))),
                                         last_result := Some r\<rparr>)
                                  (scheduled_jobs st),
                              clock_reads := clock_reads st + 1\<rparr>
                      else st)"
  have "registry_ok se st1"
    using assms
      registry_ok_map_entry[OF assms,
        of "\<lambda>j. j\<lparr>last_run := Some (Iso (clk se (clock_reads st))), last_result := Some r\<rparr>" name]
    by (simp add: st1_def registry_ok_def)
  then have "registry_ok se (st1\<lparr>clock_reads := clock_reads st1 + 1\<rparr>)"
    by (simp add: registry_ok_clock)
  then show ?thesis
    using Inr
    by (simp add: execute_scheduled_workflow_def Let_def st1_def[symmetric]
          registry_ok_set_last_error split: option.splits)
qed

lemma registry_ok_load_jobs:
  "registry_ok se s \<Longrightarrow> load_jobs se s data = Some (x, s') \<Longrightarrow> registry_ok se s'"
proof (induction data arbitrary: s)
  case Nil
  then show ?case by simp
next
  case (Cons nj rest)
  obtain name info where nj: "nj = (name, info)" by (cases nj)
  show ?case
  proof (cases "interval_minutes info")
    case (Some m)
    show ?thesis
    proof (cases "schedule_interval_workflow se s (workflow info) m (Some name)")
      case None
      with Some Cons.prems nj show ?thesis by simp
    next
      case out: (Some res)
      show ?thesis
      proof (cases res)
        case (Inl y)
        with out Some Cons.prems nj show ?thesis by simp
      next
        case (Inr p)
        obtain n s1 where p: "p = (n, s1)" by (cases p)
        from registry_ok_interval[OF Cons.prems(1) out[unfolded Inr p]]
        have "registry_ok se s1" .
        moreover from Cons.prems(2) nj Some out Inr p
        have "load_jobs se s1 rest = Some (x, s')" by simp
        ultimately show ?thesis by (rule Cons.IH)
      qed
    qed
  next
    case None
    show ?thesis
    proof (cases "schedule_time info")
      case n2: None
      with None Cons.prems nj show ?thesis by simp
    next
      case (Some t)
      show ?thesis
      proof (cases "schedule_workflow se s (workflow info) t (Some name) (repeat info)")
        case (Inl y)
        with None Some Cons.prems nj show ?thesis by simp
      next
        case (Inr p)
        obtain n s1 where p: "p = (n, s1)" by (cases p)
        from registry_ok_daily[OF Cons.prems(1) Inr[unfolded p]] have "registry_ok se s1" .
        moreover from Cons.prems(2) nj None Some Inr p
        have "load_jobs se s1 rest = Some (x, s')" by simp
        ultimately show ?thesis by (rule Cons.IH)
      qed
    qed
  qed
qed

lemma registry_ok_load:
  assumes "registry_ok se st" "load_schedule se st src = Some (x, st')"
  shows "registry_ok se st'"
proof (cases src)
  case (Inl m)
  with assms show ?thesis by (simp add: load_schedule_def)
next
  case (Inr data)
  have "registry_ok se (st\<lparr>scheduled_jobs := [], library_jobs := []\<rparr>)"
    by (simp add: registry_ok_def)
  moreover from assms(2) Inr
  have "load_jobs se (st\<lparr>scheduled_jobs := [], library_jobs := []\<rparr>) data = Some (x, st')"
    by (simp add: load_schedule_def)
  ultimately show ?thesis by (rule registry_ok_load_jobs)
qed

lemma reachable_registry_ok: "reachable se st \<Longrightarrow> registry_ok se st"
proof (induction rule: reachable.induct)
  case initial
  show ?case by (rule registry_ok_empty)
next
  case (daily st w t n rep name st')
  then show ?case using registry_ok_daily by blast
next
  case (interval st w m n name st')
  then show ?case using registry_ok_interval by blast
next
  case (removed st name)
  then show ?case by (simp add: registry_ok_remove)
next
  case (dispatched st e w name)
  then show ?case by (simp add: registry_ok_dispatched)
next
  case (loaded st src x st')
  then show ?case using registry_ok_load by blast
qed

lemma one_job_registry_reachable: "reachable demo_sched_env one_job_registry"
proof -
  have t: "''09:00'' = hhmm 9 0" by (simp add: hhmm_def two_digits_def)
  have "get_next_run_time demo_sched_env 1 ''09:00'' = (at_time demo_time 9 0, 2)"
    unfolding t by (simp add: next_run_hhmm demo_sched_env_def dt_le_def dt_less_def at_time_def
        demo_time_def)
  then have "schedule_workflow demo_sched_env empty_scheduler demo_workflow ''09:00'' (Some ''job'') False
          = Inr (''job'', one_job_registry)"
    by (simp add: schedule_workflow_def Let_def empty_scheduler_def one_job_registry_def
        demo_sched_env_def)
  from reachable.daily[OF reachable.initial this] show ?thesis .
qed

section \<open>Saving and loading the registry\<close>

lemma update_fresh: "k \<notin> fst ` set al \<Longrightarrow> AList.update k v al = al @ [(k, v)]"
  by (induction al) auto

lemma schedule_interval_fresh:
  assumes "name \<noteq> []" "name \<notin> fst ` set (scheduled_jobs s)" "every_answer se m = Registers"
  shows "\<exists>s' info. schedule_interval_workflow se s w m (Some name) = Some (Inr (name, s'))
               \<and> scheduled_jobs s' = scheduled_jobs s @ [(name, info)]
               \<and> trigger_spec info = (None, Some m, True)"
  using assms by (simp add: schedule_interval_workflow_def Let_def update_fresh trigger_spec_def)

lemma schedule_daily_fresh:
  assumes "name \<noteq> []" "name \<notin> fst ` set (scheduled_jobs s)" "at_accepts se t"
  shows "\<exists>s' info. schedule_workflow se s w t (Some name) rep = Inr (name, s')
               \<and> scheduled_jobs s' = scheduled_jobs s @ [(name, info)]
               \<and> trigger_spec info = (Some t, None, rep)"
  using assms
  by (simp add: schedule_workflow_def Let_def update_fresh trigger_spec_def split: prod.splits)

text \<open>
  Loading entries with fresh, distinct, non-empty names and accepted triggers returns,
  raises nothing, and appends them with their triggers, in order.
\<close>

lemma load_jobs_ok:
  assumes "list_all (entry_ok se) data" "distinct (map fst data)"
    and "fst ` set data \<inter> fst ` set (scheduled_jobs s) = {}"
  shows "\<exists>s'. load_jobs se s data = Some (None, s')
            \<and> job_triggers (scheduled_jobs s') = job_triggers (scheduled_jobs s) @ job_triggers data"
  using assms
proof (induction data arbitrary: s)
  case Nil
  then show ?case by (simp add: job_triggers_def)
next
  case (Cons nj rest)
  obtain name info where nj: "nj = (name, info)" by (cases nj)
  from Cons.prems nj have ok: "entry_ok se (name, info)" and rest_ok: "list_all (entry_ok se) rest"
    and dist: "distinct (map fst rest)" and notin: "name \<notin> fst ` set rest"
    and fresh: "name \<notin> fst ` set (scheduled_jobs s)"
    and disj: "fst ` set rest \<inter> fst ` set (scheduled_jobs s) = {}"
    by auto
  from ok have ne: "name \<noteq> []" by (simp add: entry_ok_def)
  show ?case
  proof (cases "interval_minutes info")
    case (Some m)
    from ok Some have reg: "every_answer se m = Registers"
      and t: "trigger_spec info = (None, Some m, True)"
      by (simp_all add: entry_ok_def trigger_spec_def)
    from schedule_interval_fresh[OF ne fresh reg] obtain s1 info' where
      i: "schedule_interval_workflow se s (workflow info) m (Some name) = Some (Inr (name, s1))"
         "scheduled_jobs s1 = scheduled_jobs s @ [(name, info')]"
         "trigger_spec info' = (None, Some m, True)" by blast
    have "fst ` set rest \<inter> fst ` set (scheduled_jobs s1) = {}"
      using disj notin i(2) by auto
    from Cons.IH[OF rest_ok dist this] obtain s' where
      "load_jobs se s1 rest = Some (None, s')"
      "job_triggers (scheduled_jobs s') = job_triggers (scheduled_jobs s1) @ job_triggers rest"
      by blast
    with i t Some nj show ?thesis by (simp add: job_triggers_def)
  next
    case None
    with ok obtain t where st: "schedule_time info = Some t" and acc: "at_accepts se t"
      by (auto simp: entry_ok_def split: option.splits)
    from schedule_daily_fresh[OF ne fresh acc] obtain s1 info' where
      i: "schedule_workflow se s (workflow info) t (Some name) (repeat info) = Inr (name, s1)"
         "scheduled_jobs s1 = scheduled_jobs s @ [(name, info')]"
         "trigger_spec info' = (Some t, None, repeat info)" by blast
    from None st have t: "trigger_spec info = (Some t, None, repeat info)"
      by (simp add: trigger_spec_def)
    have "fst ` set rest \<inter> fst ` set (scheduled_jobs s1) = {}"
      using disj notin i(2) by auto
    from Cons.IH[OF rest_ok dist this] obtain s' where
      "load_jobs se s1 rest = Some (None, s')"
      "job_triggers (scheduled_jobs s') = job_triggers (scheduled_jobs s1) @ job_triggers rest"
      by blast
    with i t None st nj show ?thesis by (simp add: job_triggers_def)
  qed
qed

lemma saved_entry_fst: "fst (saved_entry nj) = fst nj"
  by (simp add: saved_entry_def)

lemma saved_entry_snd:
  "schedule_time (snd (saved_entry nj)) = schedule_time (snd nj)"
  "interval_minutes (snd (saved_entry nj)) = interval_minutes (snd nj)"
  "repeat (snd (saved_entry nj)) = repeat (snd nj)"
  by (cases "next_run (snd nj)", simp_all add: saved_entry_def)+

lemma saved_entry_facts:
  "trigger_spec (snd (saved_entry nj)) = trigger_spec (snd nj)"
  "entry_ok se (saved_entry nj) = entry_ok se nj"
  by (simp_all add: trigger_spec_def entry_ok_def saved_entry_fst saved_entry_snd
        cong: option.case_cong)

lemma save_schedule_data:
  assumes "write_error se = None"
  shows "\<exists>path st1. save_schedule se st filename = Inr (path, map saved_entry (scheduled_jobs st), st1)"
  using assms
  by (auto simp: save_schedule_def Let_def split: option.splits prod.splits)

text \<open>
  C8. For every registry that satisfies \<open>registry_ok\<close>, as every reachable one does
  (lemma \<open>reachable_registry_ok\<close>), when writing the file does not raise:
  \<open>save_schedule\<close> yields the saved form, and loading that form into any scheduler state
  returns, raises nothing, and gives a registry with the same job names, in the same
  order, each with the same trigger (\<^verbatim>\<open>schedule_time\<close>, \<^verbatim>\<open>interval_minutes\<close>, \<^verbatim>\<open>repeat\<close>).
  Nothing is said about \<^verbatim>\<open>next_run\<close>.
\<close>

theorem save_load_roundtrip:
  assumes "registry_ok se st" "write_error se = None"
  shows "\<exists>path data st1. save_schedule se st filename = Inr (path, data, st1)
           \<and> (\<forall>st0. \<exists>st'. load_schedule se st0 (Inr data) = Some (None, st')
                  \<and> job_triggers (scheduled_jobs st') = job_triggers (scheduled_jobs st))"
proof -
  let ?data = "map saved_entry (scheduled_jobs st)"
  from save_schedule_data[OF assms(2)] obtain path st1 where
    sv: "save_schedule se st filename = Inr (path, ?data, st1)" by blast
  have d1: "list_all (entry_ok se) ?data"
    using assms(1) by (simp add: registry_ok_def list_all_iff saved_entry_facts)
  have d2: "distinct (map fst ?data)"
    using assms(1) by (simp add: registry_ok_def saved_entry_fst comp_def)
  have d3: "job_triggers ?data = job_triggers (scheduled_jobs st)"
    by (simp add: job_triggers_def saved_entry_fst saved_entry_facts comp_def)
  have "\<exists>st'. load_schedule se st0 (Inr ?data) = Some (None, st')
          \<and> job_triggers (scheduled_jobs st') = job_triggers (scheduled_jobs st)" for st0
  proof -
    have "fst ` set ?data
            \<inter> fst ` set (scheduled_jobs (st0\<lparr>scheduled_jobs := [], library_jobs := []\<rparr>)) = {}"
      by simp
    from load_jobs_ok[OF d1 d2 this] obtain s' where
      "load_jobs se (st0\<lparr>scheduled_jobs := [], library_jobs := []\<rparr>) ?data = Some (None, s')"
      "job_triggers (scheduled_jobs s')
         = job_triggers (scheduled_jobs (st0\<lparr>scheduled_jobs := [], library_jobs := []\<rparr>))
           @ job_triggers ?data"
      by blast
    moreover have "job_triggers (scheduled_jobs (st0\<lparr>scheduled_jobs := [], library_jobs := []\<rparr>)) = []"
      by (simp add: job_triggers_def)
    ultimately show ?thesis using d3 by (simp add: load_schedule_def)
  qed
  with sv show ?thesis by blast
qed

theorem save_load_roundtrip_witness:
  "registry_ok demo_sched_env two_job_registry \<and> write_error demo_sched_env = None
   \<and> (\<exists>path data st1. save_schedule demo_sched_env two_job_registry None = Inr (path, data, st1)
        \<and> (\<exists>st'. load_schedule demo_sched_env empty_scheduler (Inr data) = Some (None, st')
               \<and> job_triggers (scheduled_jobs st')
                   = [(''job'', Some ''09:00'', None, False), (''poll'', None, Some 30, True)]))"
proof -
  have p1: "registry_ok demo_sched_env two_job_registry"
    by (simp add: registry_ok_def entry_ok_def two_job_registry_def demo_sched_env_def)
  have p2: "write_error demo_sched_env = None" by (simp add: demo_sched_env_def)
  have t: "job_triggers (scheduled_jobs two_job_registry)
             = [(''job'', Some ''09:00'', None, False), (''poll'', None, Some 30, True)]"
    by (simp add: job_triggers_def trigger_spec_def two_job_registry_def)
  from save_load_roundtrip[OF p1 p2, of None] p1 p2 show ?thesis
    unfolding t by blast
qed

end
